theory Spec2Isabelle
  imports Main "HOL-Library.AList"
begin

section \<open>Python values, dictionaries and exceptions\<close>

text \<open>
  The client handles untyped Python values: configuration entries, JSON bodies and
  dictionary representations of models. The values that occur are \<open>None\<close>, booleans,
  integers, strings, lists and dictionaries with string keys.
\<close>

datatype pyval =
    PNone
  | PBool bool
  | PInt int
  | PStr string
  | PList "pyval list"
  | PDict "(string \<times> pyval) list"

text \<open>
  A dictionary is an association list in insertion order; \<open>map_of\<close> is the lookup and
  \<open>AList.update\<close> the assignment \<open>d[k] = v\<close> (an existing key keeps its position, a new
  key is appended).
\<close>

type_synonym pydict = "(string \<times> pyval) list"

datatype error =
    NotImplementedError
  | Exception string
  | HTTPError string
  | KeyError string
  | TypeError
  | ValueError
  | ConnectionError string

text \<open>\<open>d.get(k)\<close>: the value, or \<open>None\<close> for a missing key.\<close>

definition py_get :: "pydict \<Rightarrow> string \<Rightarrow> pyval" where
  "py_get d k = (case map_of d k of None \<Rightarrow> PNone | Some v \<Rightarrow> v)"

section \<open>models/base.py: ModelBase.to_dict\<close>

text \<open>
  \<open>ModelBase.to_dict(self, remove_nones)\<close> calls \<open>self.to_dict()\<close>, which Python
  dispatches on the class of \<open>self\<close>. A class either inherits \<open>to_dict\<close> from
  \<open>ModelBase\<close>, or overrides it. An override is given by what its call without
  \<open>remove_nones\<close> (the default, \<open>False\<close>) produces, a dictionary or an exception,
  and by what it does when it is called with \<open>remove_nones=True\<close>: either it delegates
  to \<open>ModelBase.to_dict\<close> (\<open>super().to_dict(remove_nones=True)\<close>) and returns what
  that returns, or it produces a result of its own (a dictionary, or an exception such
  as the \<open>TypeError\<close> of a signature without the parameter).
\<close>

datatype override_call = Delegates | Returns "error + pydict"

datatype model_class = NoOverride | Override "error + pydict" override_call

text \<open>
  \<open>to_dict\<close> is the call \<open>obj.to_dict(remove_nones)\<close> as Python dispatches it on the
  class of \<open>obj\<close>, and \<open>ModelBase_to_dict\<close> is the body of \<open>ModelBase.to_dict\<close> run
  on an object of that class:
  \<^verbatim>\<open>if remove_nones:
    return {k: v for k, v in self.to_dict().items() if v is not None}
else:
    raise NotImplementedError()\<close>
\<close>

function to_dict :: "model_class \<Rightarrow> bool \<Rightarrow> error + pydict"
  and ModelBase_to_dict :: "model_class \<Rightarrow> bool \<Rightarrow> error + pydict" where
  "to_dict cls remove_nones =
     (case cls of
        NoOverride \<Rightarrow> ModelBase_to_dict cls remove_nones
      | Override r on_true \<Rightarrow>
          (if remove_nones then
             (case on_true of
                Delegates \<Rightarrow> ModelBase_to_dict cls True
              | Returns r' \<Rightarrow> r')
           else r))"
| "ModelBase_to_dict cls remove_nones =
     (if remove_nones then
        (case to_dict cls False of
           Inl e \<Rightarrow> Inl e
         | Inr d \<Rightarrow> Inr (filter (\<lambda>(k, v). v \<noteq> PNone) d))
      else Inl NotImplementedError)"
  by pat_completeness auto
termination
  by (relation "measure (\<lambda>x. case x of
                   Inl (cls, remove_nones) \<Rightarrow> if remove_nones then 3 else 1
                 | Inr (cls, remove_nones) \<Rightarrow> if remove_nones then 2 else 0)") auto

declare to_dict.simps [simp del] ModelBase_to_dict.simps [simp del]

section \<open>trustar.py: configuration of the client\<close>

definition CLIENT_VERSION :: string where
  "CLIENT_VERSION = ''0.3.0''"

definition REQUIRED_KEYS :: "string list" where
  "REQUIRED_KEYS = [''auth'', ''base'', ''api_key'', ''api_secret'']"

definition REMAPPED_KEYS :: "(string \<times> string) list" where
  "REMAPPED_KEYS =
     [(''auth_endpoint'', ''auth''),
      (''api_endpoint'', ''base''),
      (''user_api_key'', ''api_key''),
      (''user_api_secret'', ''api_secret'')]"

definition DEFAULTS :: pydict where
  "DEFAULTS =
     [(''client_type'', PStr ''PYTHON_SDK''),
      (''client_version'', PStr CLIENT_VERSION),
      (''client_metatag'', PNone),
      (''verify'', PBool True)]"

text \<open>
  \<open>val in REQUIRED_KEYS\<close> compares the value with every string of the list, and
  \<open>val in DEFAULTS\<close> with every key of the dictionary.
\<close>

definition py_in_strings :: "pyval \<Rightarrow> string list \<Rightarrow> bool" where
  "py_in_strings val ks = (val \<in> set (map PStr ks))"

text \<open>
  The remapping loop:
  \<^verbatim>\<open>for k, v in self.REMAPPED_KEYS.items():
    if k in config and v not in config:
        config[v] = config[k]\<close>
\<close>

definition remap_one :: "string \<Rightarrow> string \<Rightarrow> pydict \<Rightarrow> pydict" where
  "remap_one k v config =
     (case map_of config k of
        Some x \<Rightarrow> (if map_of config v = None then AList.update v x config else config)
      | None \<Rightarrow> config)"

fun remap_keys :: "(string \<times> string) list \<Rightarrow> pydict \<Rightarrow> pydict" where
  "remap_keys [] config = config"
| "remap_keys ((k, v) # rest) config = remap_keys rest (remap_one k v config)"

text \<open>
  The loop over \<open>config.items()\<close>:
  \<^verbatim>\<open>for key, val in config.items():
    if val is None:
        if val in TruStar.REQUIRED_KEYS:
            raise Exception("Missing config value for %s" % key)
        elif val in TruStar.DEFAULTS:
            config[key] = TruStar.DEFAULTS[key]\<close>
  The first argument is the list of items still to visit. The only assignment is to
  the key being visited, so the items still to visit are those of the dictionary at
  the start.
\<close>

fun check_items :: "pydict \<Rightarrow> pydict \<Rightarrow> error + pydict" where
  "check_items [] config = Inr config"
| "check_items ((key, val) # rest) config =
     (if val = PNone then
        (if py_in_strings val REQUIRED_KEYS then
           Inl (Exception (''Missing config value for '' @ key))
         else if py_in_strings val (map fst DEFAULTS) then
           (case map_of DEFAULTS key of
              None \<Rightarrow> Inl (KeyError key)
            | Some d \<Rightarrow> check_items rest (AList.update key d config))
         else check_items rest config)
      else check_items rest config)"

record trustar =
  auth :: pyval
  base :: pyval
  api_key :: pyval
  api_secret :: pyval
  client_type :: pyval
  client_version :: pyval
  client_metatag :: pyval
  verify :: pyval
  enclave_ids :: pyval

definition set_properties :: "pydict \<Rightarrow> trustar" where
  "set_properties config =
     \<lparr> auth = py_get config ''auth'',
       base = py_get config ''base'',
       api_key = py_get config ''api_key'',
       api_secret = py_get config ''api_secret'',
       client_type = py_get config ''client_type'',
       client_version = py_get config ''client_version'',
       client_metatag = py_get config ''client_metatag'',
       verify = py_get config ''verify'',
       enclave_ids =
         (case py_get config ''enclave_ids'' of
            PStr s \<Rightarrow> PList [PStr s]
          | other \<Rightarrow> other) \<rparr>"

text \<open>
  \<open>TruStar.__init__\<close> when the caller passes a dictionary in \<open>config\<close> (the branch
  that reads a configuration file is skipped then).
\<close>

definition TruStar_init :: "pydict \<Rightarrow> error + trustar" where
  "TruStar_init config =
     (let remapped = remap_keys REMAPPED_KEYS config in
      case check_items remapped remapped of
        Inl e \<Rightarrow> Inl e
      | Inr checked \<Rightarrow> Inr (set_properties checked))"

subsection \<open>Token retrieval\<close>

text \<open>
  A response of the \<open>requests\<close> library, as far as \<open>__get_token\<close> reads it: the
  status code, and the body as \<open>response.json()\<close> decodes it (\<open>None\<close> when the body
  is not JSON, where \<open>json()\<close> raises \<open>ValueError\<close>).
\<close>

record response =
  status_code :: int
  json_body :: "pyval option"

text \<open>\<open>str\<close> of an integer, for the \<open>{}\<close> of \<open>format\<close>.\<close>

fun str_nat :: "nat \<Rightarrow> string" where
  "str_nat n =
     (if n < 10 then [char_of (48 + n)]
      else str_nat (n div 10) @ [char_of (48 + n mod 10)])"

declare str_nat.simps [simp del]

definition str_int :: "int \<Rightarrow> string" where
  "str_int i = (if i < 0 then ''-'' @ str_nat (nat (- i)) else str_nat (nat i))"

text \<open>\<open>"{} {} Error: {}".format(status_code, "Client" if status_code < 500 else "Server", reason)\<close>\<close>

definition error_message :: "int \<Rightarrow> string \<Rightarrow> string" where
  "error_message status reason =
     str_int status @ '' '' @ (if status < 500 then ''Client'' else ''Server'')
       @ '' Error: '' @ reason"

text \<open>
  \<open>value[key]\<close> with a string key: a dictionary looks the key up and raises
  \<open>KeyError\<close> when it is missing; every other value raises \<open>TypeError\<close>.
\<close>

fun py_subscript :: "pyval \<Rightarrow> string \<Rightarrow> error + pyval" where
  "py_subscript (PDict d) key =
     (case map_of d key of None \<Rightarrow> Inl (KeyError key) | Some v \<Rightarrow> Inr v)"
| "py_subscript other key = Inl TypeError"

text \<open>
  \<open>__get_token\<close>. The call \<open>requests.post(self.auth, auth=client_auth, data=post_data)\<close>
  goes to the network: \<open>post\<close> stands for it, and gives the response or the exception
  the library raises.
\<close>

definition get_token ::
  "(pyval \<Rightarrow> pyval \<times> pyval \<Rightarrow> pydict \<Rightarrow> error + response) \<Rightarrow> trustar \<Rightarrow> error + pyval" where
  "get_token post self =
     (let client_auth = (api_key self, api_secret self);
          post_data = [(''grant_type'', PStr ''client_credentials'')]
      in case post (auth self) client_auth post_data of
           Inl e \<Rightarrow> Inl e
         | Inr response \<Rightarrow>
             if 400 \<le> status_code response \<and> status_code response < 600 then
               Inl (HTTPError (error_message (status_code response) ''unable to get token''))
             else
               (case json_body response of
                  None \<Rightarrow> Inl ValueError
                | Some body \<Rightarrow> py_subscript body ''access_token''))"

text \<open>A server that answers every request with the response \<open>r\<close>.\<close>

definition answering ::
  "response \<Rightarrow> pyval \<Rightarrow> pyval \<times> pyval \<Rightarrow> pydict \<Rightarrow> error + response" where
  "answering r url client_auth post_data = Inr r"

subsection \<open>Page-generator constructors\<close>

text \<open>
  The closure of the three constructors:
  \<^verbatim>\<open>def func(page_number, page_size):
    return self.get_reports(page_number=page_number, page_size=page_size, **kwargs)\<close>
  The endpoint method is a parameter (it issues an HTTP call; \<open>'w\<close> is the state of
  the world it acts on). Python raises \<open>TypeError\<close> when \<open>kwargs\<close> repeats one of the
  two keyword arguments.
\<close>

definition bound_func ::
  "(nat option \<Rightarrow> nat option \<Rightarrow> pydict \<Rightarrow> 'w \<Rightarrow> (error + 'p) \<times> 'w)
     \<Rightarrow> pydict \<Rightarrow> nat \<Rightarrow> nat option \<Rightarrow> 'w \<Rightarrow> (error + 'p) \<times> 'w" where
  "bound_func method kwargs page_number page_size w =
     (if ''page_number'' \<in> set (map fst kwargs) \<or> ''page_size'' \<in> set (map fst kwargs)
      then (Inl TypeError, w)
      else method (Some page_number) page_size kwargs w)"

text \<open>
  A parameter with a default is an \<open>option\<close>: \<open>None\<close> when the caller omits it.
  \<open>page_size\<close> itself may be \<open>None\<close>, so the parameter is an option of an option.
  \<open>Page.get_page_generator\<close> is defined in \<open>page.py\<close> and is a parameter here.
\<close>

definition get_report_page_generator ::
  "((nat \<Rightarrow> nat option \<Rightarrow> 'w \<Rightarrow> (error + 'p) \<times> 'w) \<Rightarrow> nat \<Rightarrow> nat option \<Rightarrow> 'g)
     \<Rightarrow> (nat option \<Rightarrow> nat option \<Rightarrow> pydict \<Rightarrow> 'w \<Rightarrow> (error + 'p) \<times> 'w)
     \<Rightarrow> nat option \<Rightarrow> nat option option \<Rightarrow> pydict \<Rightarrow> 'g" where
  "get_report_page_generator get_page_generator get_reports start_page page_size kwargs =
     get_page_generator (bound_func get_reports kwargs)
       (case start_page of None \<Rightarrow> 0 | Some n \<Rightarrow> n)
       (case page_size of None \<Rightarrow> None | Some s \<Rightarrow> s)"

definition get_community_trends_page_generator ::
  "((nat \<Rightarrow> nat option \<Rightarrow> 'w \<Rightarrow> (error + 'p) \<times> 'w) \<Rightarrow> nat \<Rightarrow> nat option \<Rightarrow> 'g)
     \<Rightarrow> (nat option \<Rightarrow> nat option \<Rightarrow> pydict \<Rightarrow> 'w \<Rightarrow> (error + 'p) \<times> 'w)
     \<Rightarrow> nat option \<Rightarrow> nat option option \<Rightarrow> pydict \<Rightarrow> 'g" where
  "get_community_trends_page_generator get_page_generator get_community_trends
       start_page page_size kwargs =
     get_page_generator (bound_func get_community_trends kwargs)
       (case start_page of None \<Rightarrow> 0 | Some n \<Rightarrow> n)
       (case page_size of None \<Rightarrow> None | Some s \<Rightarrow> s)"

definition get_related_indicators_page_generator ::
  "((nat \<Rightarrow> nat option \<Rightarrow> 'w \<Rightarrow> (error + 'p) \<times> 'w) \<Rightarrow> nat \<Rightarrow> nat option \<Rightarrow> 'g)
     \<Rightarrow> (nat option \<Rightarrow> nat option \<Rightarrow> pydict \<Rightarrow> 'w \<Rightarrow> (error + 'p) \<times> 'w)
     \<Rightarrow> nat option \<Rightarrow> nat option option \<Rightarrow> pydict \<Rightarrow> 'g" where
  "get_related_indicators_page_generator get_page_generator get_related_indicators
       start_page page_size kwargs =
     get_page_generator (bound_func get_related_indicators kwargs)
       (case start_page of None \<Rightarrow> 0 | Some n \<Rightarrow> n)
       (case page_size of None \<Rightarrow> None | Some s \<Rightarrow> s)"

section \<open>The pagination engine\<close>

text \<open>
  \<open>trustar.py\<close> imports \<open>Page\<close> from \<open>page.py\<close>, which is not among the sources. The
  engine is modelled from sections 3 and 4 of the specification.
\<close>

text \<open>
  Modelled from the spec: the class \<open>Page\<close> of \<open>page.py\<close> (section 3, Page). The items
  in the order of the server, the zero-indexed page number, the page size, the total
  number of items, and the explicit has-more flag of the response when it carries one.
  The three numbers are non-negative integers: construction rejects anything else.
\<close>

record 'a page =
  items :: "'a list"
  pageNumber :: nat
  pageSize :: nat
  totalElements :: nat
  hasMoreFlag :: "bool option"

text \<open>
  Modelled from the spec: \<open>hasNextPage\<close> of \<open>page.py\<close> (sections 3 and 4.1). Derived as
  \<open>(pageNumber + 1) * pageSize < totalElements\<close> unless the source provides an explicit
  flag; the explicit flag wins.
\<close>

definition hasNextPage :: "'a page \<Rightarrow> bool" where
  "hasNextPage p =
     (case hasMoreFlag p of
        Some flag \<Rightarrow> flag
      | None \<Rightarrow> (pageNumber p + 1) * pageSize p < totalElements p)"

text \<open>
  Modelled from the spec: the fetch function handed to the engine (section 3,
  PageFetchFunction), \<open>(pageNumber, pageSize) -> Page\<close>. It performs network I/O and
  may fail, and it is not assumed pure: it reads and changes a world \<open>'w\<close>. Its
  errors \<open>'e\<close> are opaque to the engine.
\<close>

type_synonym ('e, 'a, 'w) fetch_fn = "nat \<Rightarrow> nat option \<Rightarrow> 'w \<Rightarrow> ('e + 'a page) \<times> 'w"

text \<open>What one pull of a generator gives: an element, the end of the sequence, or an error.\<close>

datatype ('e, 'a) pulled = Yielded 'a | StopIteration | Raised 'e

text \<open>
  Modelled from the spec: the state of a \<open>PageGenerator\<close> of \<open>page.py\<close> (section 4.2).
  \<open>Ready n\<close>: the next pull fetches page \<open>n\<close>. \<open>Exhausted\<close>: the last page yielded
  reported no next page. \<open>Failed e\<close>: a fetch failed with \<open>e\<close>, the terminal failed
  state. A generator is constructed in the state \<open>Ready startPage\<close>.
\<close>

datatype 'e gen_state = Ready nat | Exhausted | Failed 'e

text \<open>
  Modelled from the spec: one pull of a \<open>PageGenerator\<close> of \<open>page.py\<close> (section 4.2).
  The page is fetched at the moment it is demanded; each page after the first is the
  one at the previous page number plus one; the sequence ends immediately after a page
  whose \<open>hasNextPage\<close> is false; a failure of the fetch fails the pull with the same
  error and leaves the generator failed, where a further pull fails again with that
  error.
\<close>

definition next_page ::
  "('e, 'a, 'w) fetch_fn \<Rightarrow> nat option \<Rightarrow> 'e gen_state \<Rightarrow> 'w
     \<Rightarrow> ('e, 'a page) pulled \<times> 'e gen_state \<times> 'w" where
  "next_page fetchFn psize st w =
     (case st of
        Ready n \<Rightarrow>
          (case fetchFn n psize w of
             (Inl e, w') \<Rightarrow> (Raised e, Failed e, w')
           | (Inr p, w') \<Rightarrow>
               (Yielded p, if hasNextPage p then Ready (Suc n) else Exhausted, w'))
      | Exhausted \<Rightarrow> (StopIteration, Exhausted, w)
      | Failed e \<Rightarrow> (Raised e, Failed e, w))"

text \<open>The results of \<open>n\<close> successive pulls, with the state and the world they leave.\<close>

fun pull_pages ::
  "nat \<Rightarrow> ('e, 'a, 'w) fetch_fn \<Rightarrow> nat option \<Rightarrow> 'e gen_state \<Rightarrow> 'w
     \<Rightarrow> ('e, 'a page) pulled list \<times> 'e gen_state \<times> 'w" where
  "pull_pages 0 fetchFn psize st w = ([], st, w)"
| "pull_pages (Suc n) fetchFn psize st w =
     (case next_page fetchFn psize st w of
        (r, st', w') \<Rightarrow>
          (case pull_pages n fetchFn psize st' w' of
             (rs, st'', w'') \<Rightarrow> (r # rs, st'', w'')))"

text \<open>
  The fetch function with a log: the world is paired with the list of the page
  numbers the function has been invoked with, in the order of the calls.
\<close>

definition logged :: "('e, 'a, 'w) fetch_fn \<Rightarrow> ('e, 'a, 'w \<times> nat list) fetch_fn" where
  "logged fetchFn n psize wl =
     (case wl of
        (w, calls) \<Rightarrow>
          (case fetchFn n psize w of (r, w') \<Rightarrow> (r, (w', calls @ [n]))))"

text \<open>
  Modelled from the spec: one pull of an \<open>ItemGenerator\<close> of \<open>page.py\<close> (section 4.3).
  Its state is the rest of the current page's items and the wrapped page generator.
  It yields the items of the current page in order, pulls the next page only when the
  current one is used up, skips a page without items, ends when the page sequence
  ends, and fails where the page fetch fails. Nothing bounds the number of empty
  pages it may have to skip, so the search takes fuel: one unit for each page pulled,
  and \<open>None\<close> when the fuel runs out.
\<close>

fun next_item ::
  "nat \<Rightarrow> ('e, 'a, 'w) fetch_fn \<Rightarrow> nat option \<Rightarrow> 'a list \<times> 'e gen_state \<Rightarrow> 'w
     \<Rightarrow> (('e, 'a) pulled \<times> ('a list \<times> 'e gen_state) \<times> 'w) option" where
  "next_item fuel fetchFn psize (x # rest, st) w = Some (Yielded x, (rest, st), w)"
| "next_item 0 fetchFn psize ([], st) w = None"
| "next_item (Suc fuel) fetchFn psize ([], st) w =
     (case next_page fetchFn psize st w of
        (Yielded p, st', w') \<Rightarrow> next_item fuel fetchFn psize (items p, st') w'
      | (StopIteration, st', w') \<Rightarrow> Some (StopIteration, ([], st'), w')
      | (Raised e, st', w') \<Rightarrow> Some (Raised e, ([], st'), w'))"

text \<open>The results of \<open>n\<close> successive pulls of items, each with the given fuel.\<close>

fun pull_items ::
  "nat \<Rightarrow> nat \<Rightarrow> ('e, 'a, 'w) fetch_fn \<Rightarrow> nat option \<Rightarrow> 'a list \<times> 'e gen_state \<Rightarrow> 'w
     \<Rightarrow> (('e, 'a) pulled list \<times> ('a list \<times> 'e gen_state) \<times> 'w) option" where
  "pull_items 0 fuel fetchFn psize s w = Some ([], s, w)"
| "pull_items (Suc n) fuel fetchFn psize s w =
     (case next_item fuel fetchFn psize s w of
        None \<Rightarrow> None
      | Some (r, s', w') \<Rightarrow>
          (case pull_items n fuel fetchFn psize s' w' of
             None \<Rightarrow> None
           | Some (rs, s'', w'') \<Rightarrow> Some (r # rs, s'', w'')))"

text \<open>
  Modelled from the spec: the synthetic dataset of section 8, a server that holds the
  items \<open>xs\<close> and splits them across pages. The size of its pages is the size
  requested, or its default when the request leaves the size to the server. It never
  fails, keeps no state, and sends no explicit has-more flag.
\<close>

definition dataset_fetch :: "nat \<Rightarrow> 'a list \<Rightarrow> ('e, 'a, 'w) fetch_fn" where
  "dataset_fetch defaultSize xs n psize w =
     (let S = (case psize of None \<Rightarrow> defaultSize | Some s \<Rightarrow> s) in
      (Inr \<lparr> items = take S (drop (n * S) xs),
             pageNumber = n,
             pageSize = S,
             totalElements = length xs,
             hasMoreFlag = None \<rparr>, w))"

text \<open>
  Modelled from the spec: the failing fetch of the scenario of section 8 ("fetch of page
  2 throws a network error after pages 0 and 1 succeeded"). It fails with \<open>e\<close> on
  page \<open>k\<close> and is \<open>fetchFn\<close> on every other page.
\<close>

definition failing_at :: "nat \<Rightarrow> 'e \<Rightarrow> ('e, 'a, 'w) fetch_fn \<Rightarrow> ('e, 'a, 'w) fetch_fn" where
  "failing_at k e fetchFn n psize w = (if n = k then (Inl e, w) else fetchFn n psize w)"

section \<open>Theorems\<close>

subsection \<open>ModelBase.to_dict\<close>

lemma to_dict_NoOverride: "to_dict NoOverride remove_nones = ModelBase_to_dict NoOverride remove_nones"
  by (simp add: to_dict.simps)

lemma to_dict_Override_False: "to_dict (Override r on_true) False = r"
  by (simp add: to_dict.simps)

lemma ModelBase_to_dict_body:
  "ModelBase_to_dict (Override (Inr d) on_true) True = Inr (filter (\<lambda>(k, v). v \<noteq> PNone) d)"
  "ModelBase_to_dict cls False = Inl NotImplementedError"
  "to_dict NoOverride True = Inl NotImplementedError"
  by (simp_all add: to_dict.simps ModelBase_to_dict.simps [of _ True] ModelBase_to_dict.simps [of _ False])

text \<open>
  C10, as the code has it. Take a class that overrides \<open>to_dict\<close>, whose override
  delegates to \<open>ModelBase.to_dict\<close> when it is called with \<open>remove_nones=True\<close>, and
  whose call without \<open>remove_nones\<close> returns the dictionary \<open>d\<close>. Then the call
  \<open>to_dict(remove_nones=True)\<close> returns the entries of \<open>d\<close> whose value is not
  \<open>None\<close>, in the order of \<open>d\<close>: no entry is added and no other value is changed.
  On a class that does not override \<open>to_dict\<close>, the call without \<open>remove_nones\<close>
  (its default is \<open>False\<close>) raises \<open>NotImplementedError\<close>.
\<close>

theorem to_dict_remove_nones_delegating:
  "cls = Override r Delegates \<Longrightarrow> to_dict cls False = Inr d \<Longrightarrow>
     to_dict cls True = Inr (filter (\<lambda>(k, v). v \<noteq> PNone) d)
     \<and> (\<exists>d'. to_dict cls True = Inr d'
            \<and> set d' = {(k, v). (k, v) \<in> set d \<and> v \<noteq> PNone})
     \<and> to_dict NoOverride False = Inl NotImplementedError"
proof -
  assume c: "cls = Override r Delegates" and d: "to_dict cls False = Inr d"
  have a: "to_dict cls True = Inr (filter (\<lambda>(k, v). v \<noteq> PNone) d)"
    unfolding c to_dict.simps [of "Override r Delegates" True]
      ModelBase_to_dict.simps [of "Override r Delegates" True]
    using d [unfolded c] by simp
  have b: "to_dict NoOverride False = Inl NotImplementedError"
    by (simp add: to_dict.simps [of NoOverride] ModelBase_to_dict.simps [of NoOverride False])
  from a b show ?thesis by auto
qed

theorem to_dict_remove_nones_delegating_witness:
  "to_dict (Override (Inr [(''a'', PInt 1), (''b'', PNone)]) Delegates) False
     = Inr [(''a'', PInt 1), (''b'', PNone)]
   \<and> to_dict (Override (Inr [(''a'', PInt 1), (''b'', PNone)]) Delegates) True
     = Inr [(''a'', PInt 1)]"
proof -
  have f: "to_dict (Override (Inr [(''a'', PInt 1), (''b'', PNone)]) Delegates) False
     = Inr [(''a'', PInt 1), (''b'', PNone)]"
    by (rule to_dict_Override_False)
  from to_dict_remove_nones_delegating [OF refl f] f show ?thesis by simp
qed

text \<open>
  C10, as it is stated for every overriding class, fails: the call is dispatched to
  the override, and an override that returns its dictionary whatever \<open>remove_nones\<close>
  is never reaches \<open>ModelBase.to_dict\<close>. The entry with the value \<open>None\<close> stays.
\<close>

theorem to_dict_override_keeps_none_counterexample:
  "to_dict (Override (Inr [(''a'', PInt 1), (''b'', PNone)])
              (Returns (Inr [(''a'', PInt 1), (''b'', PNone)]))) False
     = Inr [(''a'', PInt 1), (''b'', PNone)]
   \<and> to_dict (Override (Inr [(''a'', PInt 1), (''b'', PNone)])
              (Returns (Inr [(''a'', PInt 1), (''b'', PNone)]))) True
     = Inr [(''a'', PInt 1), (''b'', PNone)]"
  by (simp add: to_dict.simps)

subsection \<open>Configuration\<close>

lemma check_items_id: "check_items todo config = Inr config"
  by (induction todo arbitrary: config) (auto simp: py_in_strings_def)

lemma map_of_remap_one:
  "map_of (remap_one k v config) x =
     (if x = v \<and> map_of config v = None then map_of config k else map_of config x)"
  by (auto simp: remap_one_def update_conv' split: option.splits)

lemma remap_lookup:
  "map_of (remap_keys REMAPPED_KEYS config) x =
     (case map_of config x of
        Some y \<Rightarrow> Some y
      | None \<Rightarrow> (case map_of (map (\<lambda>(k, v). (v, k)) REMAPPED_KEYS) x of
                   None \<Rightarrow> None
                 | Some k \<Rightarrow> map_of config k))"
  unfolding REMAPPED_KEYS_def remap_keys.simps
  by (simp add: map_of_remap_one split: option.splits)

lemma init_examples:
  "TruStar_init [] =
     Inr \<lparr> auth = PNone, base = PNone, api_key = PNone, api_secret = PNone,
           client_type = PNone, client_version = PNone, client_metatag = PNone,
           verify = PNone, enclave_ids = PNone \<rparr>"
  "TruStar_init [(''auth'', PNone), (''client_type'', PNone), (''verify'', PNone)] =
     Inr \<lparr> auth = PNone, base = PNone, api_key = PNone, api_secret = PNone,
           client_type = PNone, client_version = PNone, client_metatag = PNone,
           verify = PNone, enclave_ids = PNone \<rparr>"
  by (simp_all add: TruStar_init_def check_items_id REMAPPED_KEYS_def remap_one_def
      set_properties_def py_get_def)

text \<open>
  C8. For every dictionary passed in \<open>config\<close>, the loop over its items returns the
  dictionary as it was: it never raises "Missing config value" and never stores a value
  of \<open>DEFAULTS\<close>, whatever keys are absent or mapped to \<open>None\<close>. The test is on the
  value, which is \<open>None\<close> there, and \<open>None\<close> is neither one of \<open>REQUIRED_KEYS\<close> nor a
  key of \<open>DEFAULTS\<close>. So \<open>__init__\<close> returns, with the properties read from the
  remapped dictionary.
\<close>

theorem init_never_missing_config:
  "check_items todo config = Inr config
   \<and> TruStar_init config = Inr (set_properties (remap_keys REMAPPED_KEYS config))
   \<and> (\<forall>key. TruStar_init config \<noteq> Inl (Exception (''Missing config value for '' @ key)))"
  by (simp add: TruStar_init_def check_items_id)

text \<open>
  C9. For every pair of a remapped key \<open>k\<close> and its canonical key \<open>v\<close>, after the
  remapping the canonical key has the value it had when the dictionary contained it,
  and the value of the remapped key only when the dictionary did not contain the
  canonical key. The properties \<open>__init__\<close> sets follow the same rule.
\<close>

theorem remap_keeps_canonical:
  "(k, v) \<in> set REMAPPED_KEYS \<Longrightarrow>
     map_of (remap_keys REMAPPED_KEYS config) v =
       (case map_of config v of Some x \<Rightarrow> Some x | None \<Rightarrow> map_of config k)
     \<and> TruStar_init config =
         Inr \<lparr> auth = (case map_of config ''auth'' of
                         Some x \<Rightarrow> x | None \<Rightarrow> py_get config ''auth_endpoint''),
               base = (case map_of config ''base'' of
                         Some x \<Rightarrow> x | None \<Rightarrow> py_get config ''api_endpoint''),
               api_key = (case map_of config ''api_key'' of
                         Some x \<Rightarrow> x | None \<Rightarrow> py_get config ''user_api_key''),
               api_secret = (case map_of config ''api_secret'' of
                         Some x \<Rightarrow> x | None \<Rightarrow> py_get config ''user_api_secret''),
               client_type = py_get config ''client_type'',
               client_version = py_get config ''client_version'',
               client_metatag = py_get config ''client_metatag'',
               verify = py_get config ''verify'',
               enclave_ids = (case py_get config ''enclave_ids'' of
                                PStr s \<Rightarrow> PList [PStr s] | other \<Rightarrow> other) \<rparr>"
proof -
  assume m: "(k, v) \<in> set REMAPPED_KEYS"
  have "map_of (map (\<lambda>(k, v). (v, k)) REMAPPED_KEYS) v = Some k"
    using m unfolding REMAPPED_KEYS_def by auto
  then have a: "map_of (remap_keys REMAPPED_KEYS config) v =
       (case map_of config v of Some x \<Rightarrow> Some x | None \<Rightarrow> map_of config k)"
    by (simp add: remap_lookup split: option.splits)
  have g: "py_get (remap_keys REMAPPED_KEYS config) x =
     (case map_of config x of
        Some y \<Rightarrow> y
      | None \<Rightarrow> (case map_of (map (\<lambda>(k, v). (v, k)) REMAPPED_KEYS) x of
                   None \<Rightarrow> PNone
                 | Some k \<Rightarrow> py_get config k))" for x
    by (simp add: py_get_def remap_lookup split: option.splits)
  have b: "TruStar_init config = Inr (set_properties (remap_keys REMAPPED_KEYS config))"
    by (simp add: TruStar_init_def check_items_id)
  show ?thesis
    unfolding b set_properties_def g using a
    by (simp add: REMAPPED_KEYS_def py_get_def split: option.splits)
qed

theorem remap_keeps_canonical_witness:
  "(''auth_endpoint'', ''auth'') \<in> set REMAPPED_KEYS
   \<and> map_of (remap_keys REMAPPED_KEYS
               [(''auth_endpoint'', PStr ''a''), (''auth'', PStr ''b'')]) ''auth''
       = Some (PStr ''b'')
   \<and> map_of (remap_keys REMAPPED_KEYS [(''auth_endpoint'', PStr ''a'')]) ''auth''
       = Some (PStr ''a'')"
  using
    remap_keeps_canonical [of "''auth_endpoint''" "''auth''"
      "[(''auth_endpoint'', PStr ''a''), (''auth'', PStr ''b'')]"]
    remap_keeps_canonical [of "''auth_endpoint''" "''auth''" "[(''auth_endpoint'', PStr ''a'')]"]
  by (simp add: REMAPPED_KEYS_def)

subsection \<open>Token retrieval\<close>

lemma subscript_not_http: "py_subscript body key \<noteq> Inl (HTTPError msg)"
  by (cases body) (auto split: option.splits)

lemma error_message_404:
  "error_message 404 ''unable to get token'' = ''404 Client Error: unable to get token''"
  by code_simp

lemma error_message_503:
  "error_message 503 ''unable to get token'' = ''503 Server Error: unable to get token''"
  by code_simp

lemma get_token_404:
  "get_token (answering \<lparr>status_code = 404, json_body = None\<rparr>) (set_properties [])
     = Inl (HTTPError ''404 Client Error: unable to get token'')"
  by (simp add: answering_def get_token_def error_message_404)

text \<open>
  C7, as the code has it. When the request itself succeeds with the response \<open>r\<close>,
  \<open>__get_token\<close> raises \<open>HTTPError\<close> exactly when the status code lies in 400..599.
  With any other status code, also one outside 200..299, it returns the
  \<open>access_token\<close> entry of the JSON body when the body is an object that has one.
\<close>

theorem get_token_raises_on_4xx_5xx:
  "post (auth self) (api_key self, api_secret self)
       [(''grant_type'', PStr ''client_credentials'')] = Inr r \<Longrightarrow>
   ((\<exists>msg. get_token post self = Inl (HTTPError msg))
      \<longleftrightarrow> (400 \<le> status_code r \<and> status_code r < 600))
   \<and> (\<not> (400 \<le> status_code r \<and> status_code r < 600) \<longrightarrow>
        json_body r = Some (PDict d) \<longrightarrow> map_of d ''access_token'' = Some tok \<longrightarrow>
        get_token post self = Inr tok)"
  by (auto simp: get_token_def subscript_not_http split: option.splits)

theorem get_token_raises_on_4xx_5xx_witness:
  "get_token
       (answering \<lparr>status_code = 200,
                   json_body = Some (PDict [(''access_token'', PStr ''tok'')])\<rparr>)
       (set_properties []) = Inr (PStr ''tok'')"
  using get_token_raises_on_4xx_5xx
    [of "answering \<lparr>status_code = 200,
                     json_body = Some (PDict [(''access_token'', PStr ''tok'')])\<rparr>"
        "set_properties []"
        "\<lparr>status_code = 200, json_body = Some (PDict [(''access_token'', PStr ''tok'')])\<rparr>"
        "[(''access_token'', PStr ''tok'')]" "PStr ''tok''"]
  by (simp add: answering_def)

text \<open>
  C7, as the specification states it, fails: a response with status 302, which is not
  a 2xx status, and a body holding a token makes \<open>__get_token\<close> return the token.
\<close>

theorem get_token_redirect_counterexample:
  "\<not> (200 \<le> (302::int) \<and> (302::int) < 300)
   \<and> get_token
       (answering \<lparr>status_code = 302,
                   json_body = Some (PDict [(''access_token'', PStr ''tok'')])\<rparr>)
       (set_properties []) = Inr (PStr ''tok'')"
  by (simp add: get_token_def answering_def)

subsection \<open>Page-generator constructors\<close>

text \<open>
  C6. When the caller omits \<open>start_page\<close> and \<open>page_size\<close>, each of the three
  constructors calls \<open>Page.get_page_generator\<close> with its closure, the start page 0
  and the page size \<open>None\<close>.
\<close>

theorem page_generator_defaults:
  "get_report_page_generator engine get_reports None None kwargs =
     engine (bound_func get_reports kwargs) 0 None
   \<and> get_community_trends_page_generator engine get_community_trends None None kwargs =
     engine (bound_func get_community_trends kwargs) 0 None
   \<and> get_related_indicators_page_generator engine get_related_indicators None None kwargs =
     engine (bound_func get_related_indicators kwargs) 0 None"
  by (simp add: get_report_page_generator_def get_community_trends_page_generator_def
      get_related_indicators_page_generator_def)

subsection \<open>The pagination engine\<close>

lemma pull_pages_Exhausted:
  "pull_pages n f sz Exhausted w = (replicate n StopIteration, Exhausted, w)"
  by (induction n) (simp_all add: next_page_def)

lemma pull_pages_Failed:
  "pull_pages n f sz (Failed e) w = (replicate n (Raised e), Failed e, w)"
  by (induction n) (simp_all add: next_page_def)

lemma pull_pages_Ready:
  "pull_pages (Suc n) f sz (Ready k) w =
     (case f k sz w of
        (Inl e, w') \<Rightarrow> (Raised e # replicate n (Raised e), Failed e, w')
      | (Inr p, w') \<Rightarrow>
          if hasNextPage p then
            (case pull_pages n f sz (Ready (Suc k)) w' of
               (rs, st, w'') \<Rightarrow> (Yielded p # rs, st, w''))
          else (Yielded p # replicate n StopIteration, Exhausted, w'))"
  by (simp add: next_page_def pull_pages_Exhausted pull_pages_Failed
      split: prod.splits sum.splits)

lemma pull_pages_add:
  "pull_pages (m + n) f sz st w =
     (case pull_pages m f sz st w of
        (rs, st', w') \<Rightarrow>
          (case pull_pages n f sz st' w' of
             (rs', st'', w'') \<Rightarrow> (rs @ rs', st'', w'')))"
  by (induction m arbitrary: st w) (simp_all split: prod.splits)


lemma logged_apply:
  "logged f n sz (w, l) = (case f n sz w of (r, w') \<Rightarrow> (r, (w', l @ [n])))"
  by (simp add: logged_def)

lemma pull_pages_to_Ready:
  "pull_pages i (logged f) sz (Ready start) (w0, l0) = (rs, Ready k, (w, l)) \<Longrightarrow>
     k = start + i \<and> l = l0 @ [start ..< start + i]
     \<and> (\<forall>r \<in> set rs. \<exists>p. r = Yielded p \<and> hasNextPage p)"
proof (induction i arbitrary: start w0 l0 rs)
  case 0
  then show ?case by simp
next
  case (Suc i)
  obtain r w1 where f: "f start sz w0 = (r, w1)" by (cases "f start sz w0")
  show ?case
  proof (cases r)
    case (Inl e)
    with Suc.prems f show ?thesis
      by (simp add: pull_pages_Ready logged_apply del: pull_pages.simps)
  next
    case (Inr p)
    show ?thesis
    proof (cases "hasNextPage p")
      case False
      with Suc.prems f Inr show ?thesis
        by (simp add: pull_pages_Ready logged_apply del: pull_pages.simps)
    next
      case True
      obtain rs' st' wl' where
        rest: "pull_pages i (logged f) sz (Ready (Suc start)) (w1, l0 @ [start]) = (rs', st', wl')"
        by (cases "pull_pages i (logged f) sz (Ready (Suc start)) (w1, l0 @ [start])")
      with Suc.prems f Inr True have e: "rs = Yielded p # rs'" "st' = Ready k" "wl' = (w, l)"
        by (simp_all add: pull_pages_Ready logged_apply del: pull_pages.simps)
      from Suc.IH [OF rest [unfolded e]]
      have "k = Suc start + i" "l = (l0 @ [start]) @ [Suc start ..< Suc start + i]"
        "\<forall>r \<in> set rs'. \<exists>p. r = Yielded p \<and> hasNextPage p" by auto
      then show ?thesis using e True by (simp add: upt_rec [of start])
    qed
  qed
qed

lemma dataset_next_page:
  "S = (case sz of None \<Rightarrow> D | Some s \<Rightarrow> s) \<Longrightarrow>
   next_page (dataset_fetch D xs) sz (Ready k) w =
      (Yielded \<lparr> items = take S (drop (k * S) xs), pageNumber = k, pageSize = S,
                 totalElements = length xs, hasMoreFlag = None \<rparr>,
       if (k + 1) * S < length xs then Ready (Suc k) else Exhausted, w)"
  by (simp add: next_page_def dataset_fetch_def hasNextPage_def Let_def)

lemma pull_items_step:
  "next_item fuel f sz s w = Some (r, s', w') \<Longrightarrow>
     map_option fst (pull_items (Suc n) fuel f sz s w) =
       map_option ((#) r) (map_option fst (pull_items n fuel f sz s' w'))"
  by (simp split: option.splits prod.splits)

lemma next_item_Exhausted:
  "next_item (Suc fuel) f sz ([], Exhausted) w = Some (StopIteration, ([], Exhausted), w)"
  by (simp add: next_page_def)

lemma pull_items_stop:
  "map_option fst (pull_items m (Suc fuel) f sz ([], Exhausted) w) =
     Some (replicate m StopIteration)"
proof (induction m)
  case 0
  show ?case by simp
next
  case (Suc m)
  show ?case
    unfolding pull_items_step [OF next_item_Exhausted] Suc.IH by simp
qed

lemma pull_items_buffer:
  "map_option fst (pull_items (length buf + m) (Suc fuel) f sz (buf, Exhausted) w) =
     Some (map Yielded buf @ replicate m StopIteration)"
proof (induction buf)
  case Nil
  show ?case by (simp add: pull_items_stop del: pull_items.simps)
next
  case (Cons x buf)
  have n: "next_item (Suc fuel) f sz (x # buf, Exhausted) w = Some (Yielded x, (buf, Exhausted), w)"
    by simp
  have "map_option fst (pull_items (Suc (length buf + m)) (Suc fuel) f sz (x # buf, Exhausted) w) =
     Some (map Yielded (x # buf) @ replicate m StopIteration)"
    unfolding pull_items_step [OF n] Cons.IH by simp
  then show ?case by simp
qed

lemma pull_items_past_end:
  assumes S: "S = (case sz of None \<Rightarrow> D | Some s \<Rightarrow> s)"
    and d: "drop (k * S) xs = []"
  shows "map_option fst
           (pull_items m (Suc (Suc fuel))
              (dataset_fetch D xs :: ('e, 'a, 'w) fetch_fn) sz ([], Ready k) w) =
         Some (replicate m StopIteration)"
proof (cases m)
  case 0
  then show ?thesis by simp
next
  case (Suc m')
  from d have le: "\<not> (k + 1) * S < length xs" by simp
  have n: "next_item (Suc (Suc fuel)) (dataset_fetch D xs :: ('e, 'a, 'w) fetch_fn) sz
             ([], Ready k) w =
        Some (StopIteration, ([], Exhausted), w)"
    unfolding next_item.simps(3) dataset_next_page [OF S]
    using le d by (simp add: next_page_def)
  have "map_option fst
          (pull_items (Suc m') (Suc (Suc fuel)) (dataset_fetch D xs :: ('e, 'a, 'w) fetch_fn) sz
             ([], Ready k) w) =
        Some (replicate (Suc m') StopIteration)"
    unfolding pull_items_step [OF n] pull_items_stop by simp
  then show ?thesis unfolding Suc .
qed

lemma pull_items_dataset:
  assumes S: "0 < S" "S = (case sz of None \<Rightarrow> D | Some s \<Rightarrow> s)"
    and rem: "rem = buf @ drop (k * S) xs"
  shows "map_option fst
           (pull_items (length rem + m) (Suc (Suc fuel))
              (dataset_fetch D xs :: ('e, 'a, 'w) fetch_fn) sz (buf, Ready k) w) =
         Some (map Yielded rem @ replicate m StopIteration)"
  using rem
proof (induction rem arbitrary: buf k)
  case Nil
  then have buf: "buf = []" and d: "drop (k * S) xs = []" by simp_all
  show ?case
    unfolding buf using pull_items_past_end [OF S(2) d, of m fuel w]
    by (simp del: pull_items.simps)
next
  case (Cons x rem')
  note IH = Cons.IH and prems = Cons.prems
  show ?case
  proof (cases buf)
    case (Cons y buf')
    with prems have y: "y = x" and r: "rem' = buf' @ drop (k * S) xs" by simp_all
    have n: "next_item (Suc (Suc fuel)) (dataset_fetch D xs :: ('e, 'a, 'w) fetch_fn) sz (x # buf', Ready k) w =
        Some (Yielded x, (buf', Ready k), w)"
      by simp
    have "map_option fst
           (pull_items (Suc (length rem' + m)) (Suc (Suc fuel)) (dataset_fetch D xs :: ('e, 'a, 'w) fetch_fn) sz
              (x # buf', Ready k) w) =
         Some (map Yielded (x # rem') @ replicate m StopIteration)"
      unfolding pull_items_step [OF n] IH [OF r] by simp
    then show ?thesis unfolding Cons y by (simp del: pull_items.simps)
  next
    case Nil
    with prems have d: "drop (k * S) xs = x # rem'" by simp
    have t: "take S (drop (k * S) xs) = x # take (S - 1) rem'"
      using S(1) unfolding d by (simp add: take_Cons')
    have dd: "drop (Suc k * S) xs = drop (S - 1) rem'"
    proof -
      have "drop (Suc k * S) xs = drop S (drop (k * S) xs)" by (simp add: add.commute)
      also have "\<dots> = drop (S - 1) rem'" using S(1) unfolding d by (simp add: drop_Cons')
      finally show ?thesis .
    qed
    show ?thesis
    proof (cases "(k + 1) * S < length xs")
      case True
      have n: "next_item (Suc (Suc fuel)) (dataset_fetch D xs :: ('e, 'a, 'w) fetch_fn) sz ([], Ready k) w =
          Some (Yielded x, (take (S - 1) rem', Ready (Suc k)), w)"
        unfolding next_item.simps(3) dataset_next_page [OF S(2)] t
        using True by simp
      have r: "rem' = take (S - 1) rem' @ drop (Suc k * S) xs"
        unfolding dd by simp
      have "map_option fst
             (pull_items (Suc (length rem' + m)) (Suc (Suc fuel)) (dataset_fetch D xs :: ('e, 'a, 'w) fetch_fn) sz
                ([], Ready k) w) =
           Some (map Yielded (x # rem') @ replicate m StopIteration)"
        unfolding pull_items_step [OF n] IH [OF r] by simp
      then show ?thesis unfolding Nil by (simp del: pull_items.simps)
    next
      case False
      have n: "next_item (Suc (Suc fuel)) (dataset_fetch D xs :: ('e, 'a, 'w) fetch_fn) sz ([], Ready k) w =
          Some (Yielded x, (take (S - 1) rem', Exhausted), w)"
        unfolding next_item.simps(3) dataset_next_page [OF S(2)] t
        using False by simp
      from False have "drop (Suc k * S) xs = []" by simp
      then have r: "take (S - 1) rem' = rem'" unfolding dd by simp
      have "map_option fst
             (pull_items (Suc (length rem' + m)) (Suc (Suc fuel)) (dataset_fetch D xs :: ('e, 'a, 'w) fetch_fn) sz
                ([], Ready k) w) =
           Some (map Yielded (x # rem') @ replicate m StopIteration)"
        unfolding pull_items_step [OF n] r pull_items_buffer by simp
      then show ?thesis unfolding Nil by (simp del: pull_items.simps)
    qed
  qed
qed


lemma scenario_failure_reach:
  "pull_pages 2
       (logged (failing_at 2 ''network error''
          (dataset_fetch 10 [0, 1, 2, 3, 4, 5, 6 :: nat]) :: (string, nat, unit) fetch_fn))
       (Some 3) (Ready 0) ((), []) =
     ([Yielded \<lparr>items = [0, 1, 2], pageNumber = 0, pageSize = 3, totalElements = 7, hasMoreFlag = None\<rparr>,
       Yielded \<lparr>items = [3, 4, 5], pageNumber = 1, pageSize = 3, totalElements = 7, hasMoreFlag = None\<rparr>],
      Ready 2, ((), [0, 1]))"
  by code_simp

lemma scenario_items:
  "pull_items 9 2 (dataset_fetch 10 [0, 1, 2, 3, 4, 5, 6 :: nat] :: (unit, nat, unit) fetch_fn)
       (Some 3) ([], Ready 0) () =
     Some ([Yielded 0, Yielded 1, Yielded 2, Yielded 3, Yielded 4, Yielded 5, Yielded 6,
            StopIteration, StopIteration], ([], Exhausted), ())"
  by code_simp

text \<open>
  C4. \<open>hasNextPage\<close> is true exactly when
  \<open>(pageNumber + 1) * pageSize < totalElements\<close> for a page without an explicit
  has-more flag, and is the value of the flag for a page that carries one.
\<close>

theorem hasNextPage_rule:
  "(hasMoreFlag p = None \<longrightarrow>
      hasNextPage p = ((pageNumber p + 1) * pageSize p < totalElements p))
   \<and> (\<forall>flag. hasMoreFlag p = Some flag \<longrightarrow> hasNextPage p = flag)"
  by (simp add: hasNextPage_def)

theorem hasNextPage_rule_witness:
  "hasNextPage \<lparr>items = [0, 1, 2 :: nat], pageNumber = 0, pageSize = 3, totalElements = 7,
                 hasMoreFlag = None\<rparr>
   \<and> (0 + 1) * 3 < (7::nat)
   \<and> \<not> hasNextPage \<lparr>items = [0, 1, 2 :: nat], pageNumber = 0, pageSize = 3,
                   totalElements = 7, hasMoreFlag = Some False\<rparr>"
  using
    hasNextPage_rule [of "\<lparr>items = [0, 1, 2 :: nat], pageNumber = 0, pageSize = 3,
                          totalElements = 7, hasMoreFlag = None\<rparr>"]
    hasNextPage_rule [of "\<lparr>items = [0, 1, 2 :: nat], pageNumber = 0, pageSize = 3,
                          totalElements = 7, hasMoreFlag = Some False\<rparr>"]
  by auto



text \<open>
  C3. When the generator has reached page \<open>k\<close> after \<open>i\<close> pulls and the fetch of page
  \<open>k\<close> fails with \<open>e\<close>, then \<open>k = start + i\<close>, the \<open>i\<close> pulls before yielded pages,
  and these results stand as they are; the pull of page \<open>k\<close> fails with \<open>e\<close> after a
  single invocation of the fetch function on \<open>k\<close>; every later pull fails with \<open>e\<close>
  again and invokes nothing.
\<close>

theorem fetch_failure_propagates:
  assumes reach: "pull_pages i (logged fetchFn) sz (Ready start) (w0, []) = (rs, Ready k, (w, calls))"
    and fails: "fetchFn k sz w = (Inl e, w')"
  shows "k = start + i
     \<and> (\<forall>r \<in> set rs. \<exists>p. r = Yielded p)
     \<and> pull_pages (i + Suc m) (logged fetchFn) sz (Ready start) (w0, []) =
         (rs @ Raised e # replicate m (Raised e), Failed e, (w', calls @ [k]))
     \<and> calls @ [k] = [start ..< start + i] @ [start + i]"
proof -
  from pull_pages_to_Ready [OF reach]
  have k: "k = start + i" and c: "calls = [start ..< start + i]"
    and y: "\<forall>r \<in> set rs. \<exists>p. r = Yielded p \<and> hasNextPage p"
    by auto
  have "pull_pages (Suc m) (logged fetchFn) sz (Ready k) (w, calls) =
      (Raised e # replicate m (Raised e), Failed e, (w', calls @ [k]))"
    using fails by (simp add: pull_pages_Ready logged_apply del: pull_pages.simps)
  then have "pull_pages (i + Suc m) (logged fetchFn) sz (Ready start) (w0, []) =
         (rs @ Raised e # replicate m (Raised e), Failed e, (w', calls @ [k]))"
    using reach unfolding pull_pages_add by (simp del: pull_pages.simps)
  with k c y show ?thesis by auto
qed

theorem fetch_failure_propagates_witness:
  "pull_pages (2 + Suc 1)
       (logged (failing_at 2 ''network error''
          (dataset_fetch 10 [0, 1, 2, 3, 4, 5, 6 :: nat]) :: (string, nat, unit) fetch_fn))
       (Some 3) (Ready 0) ((), []) =
     ([Yielded \<lparr>items = [0, 1, 2], pageNumber = 0, pageSize = 3, totalElements = 7, hasMoreFlag = None\<rparr>,
       Yielded \<lparr>items = [3, 4, 5], pageNumber = 1, pageSize = 3, totalElements = 7, hasMoreFlag = None\<rparr>,
       Raised ''network error'', Raised ''network error''],
      Failed ''network error'', ((), [0, 1, 2]))"
proof -
  have fails: "failing_at 2 ''network error'' (dataset_fetch 10 [0, 1, 2, 3, 4, 5, 6 :: nat]) 2 (Some 3) ()
      = (Inl ''network error'', ())"
    by (simp add: failing_at_def)
  from fetch_failure_propagates [OF scenario_failure_reach fails, of 1]
  show ?thesis by simp
qed

text \<open>
  C5. Over the empty dataset the page generator yields one page, with no items and
  \<open>hasNextPage\<close> false, and then ends; the item generator yields no item. More
  generally, whenever the first page fetched has no items and no next page, the page
  generator yields that page and ends.
\<close>

theorem empty_dataset_one_page:
  "pull_pages (Suc m) (dataset_fetch D ([] :: 'a list) :: ('e, 'a, 'w) fetch_fn) sz (Ready 0) w =
     (Yielded \<lparr> items = [], pageNumber = 0,
                pageSize = (case sz of None \<Rightarrow> D | Some s \<Rightarrow> s),
                totalElements = 0, hasMoreFlag = None \<rparr>
        # replicate m StopIteration, Exhausted, w)
   \<and> \<not> hasNextPage \<lparr> items = ([] :: 'a list), pageNumber = 0,
                pageSize = (case sz of None \<Rightarrow> D | Some s \<Rightarrow> s),
                totalElements = 0, hasMoreFlag = None \<rparr>
   \<and> map_option fst
         (pull_items m (Suc (Suc fuel)) (dataset_fetch D ([] :: 'a list) :: ('e, 'a, 'w) fetch_fn)
            sz ([], Ready 0) w) =
       Some (replicate m StopIteration)
   \<and> (\<forall>p w'. fetchFn start sz v = (Inr p, w') \<and> items p = [] \<and> \<not> hasNextPage p \<longrightarrow>
         pull_pages (Suc m) fetchFn sz (Ready start) v =
           (Yielded p # replicate m StopIteration, Exhausted, w'))"
proof -
  have a: "pull_pages (Suc m) (dataset_fetch D ([] :: 'a list) :: ('e, 'a, 'w) fetch_fn) sz
             (Ready 0) w =
     (Yielded \<lparr> items = [], pageNumber = 0,
                pageSize = (case sz of None \<Rightarrow> D | Some s \<Rightarrow> s),
                totalElements = 0, hasMoreFlag = None \<rparr>
        # replicate m StopIteration, Exhausted, w)"
    unfolding pull_pages_Ready
    by (simp add: dataset_fetch_def hasNextPage_def Let_def)
  have b: "\<not> hasNextPage \<lparr> items = ([] :: 'a list), pageNumber = 0,
                pageSize = (case sz of None \<Rightarrow> D | Some s \<Rightarrow> s),
                totalElements = 0, hasMoreFlag = None \<rparr>"
    by (simp add: hasNextPage_def)
  have c: "map_option fst
         (pull_items m (Suc (Suc fuel)) (dataset_fetch D ([] :: 'a list) :: ('e, 'a, 'w) fetch_fn)
            sz ([], Ready 0) w) =
       Some (replicate m StopIteration)"
    by (rule pull_items_past_end [OF refl]) simp
  have d: "\<forall>p w'. fetchFn start sz v = (Inr p, w') \<and> items p = [] \<and> \<not> hasNextPage p \<longrightarrow>
         pull_pages (Suc m) fetchFn sz (Ready start) v =
           (Yielded p # replicate m StopIteration, Exhausted, w')"
    unfolding pull_pages_Ready by simp
  from a b c d show ?thesis by blast
qed

theorem empty_dataset_one_page_witness:
  "pull_pages (Suc 2) (dataset_fetch 10 ([] :: nat list) :: (unit, nat, unit) fetch_fn) None
       (Ready 0) () =
     ([Yielded \<lparr>items = [], pageNumber = 0, pageSize = 10, totalElements = 0,
                hasMoreFlag = None\<rparr>,
       StopIteration, StopIteration], Exhausted, ())"
proof -
  let ?p = "\<lparr>items = ([] :: nat list), pageNumber = 0, pageSize = 10, totalElements = 0,
             hasMoreFlag = None\<rparr>"
  have f: "(dataset_fetch 10 ([] :: nat list) :: (unit, nat, unit) fetch_fn) 0 None () = (Inr ?p, ())
      \<and> items ?p = [] \<and> \<not> hasNextPage ?p"
    by (simp add: dataset_fetch_def hasNextPage_def)
  from empty_dataset_one_page
    [of 2 10 None "()" 0 "dataset_fetch 10 ([] :: nat list) :: (unit, nat, unit) fetch_fn" 0 "()"]
  have "\<forall>p w'. (dataset_fetch 10 ([] :: nat list) :: (unit, nat, unit) fetch_fn) 0 None ()
           = (Inr p, w') \<and> items p = [] \<and> \<not> hasNextPage p \<longrightarrow>
         pull_pages (Suc 2) (dataset_fetch 10 ([] :: nat list) :: (unit, nat, unit) fetch_fn)
           None (Ready 0) () = (Yielded p # replicate 2 StopIteration, Exhausted, w')"
    by blast
  with f have "pull_pages (Suc 2)
      (dataset_fetch 10 ([] :: nat list) :: (unit, nat, unit) fetch_fn) None (Ready 0) ()
      = (Yielded ?p # replicate 2 StopIteration, Exhausted, ())"
    by blast
  then show ?thesis by (simp add: numeral_2_eq_2 del: pull_pages.simps)
qed

text \<open>
  C1. Over a dataset \<open>xs\<close> served in pages of a positive size, the item generator
  wrapping the page generator that starts at page 0 yields the items of \<open>xs\<close>, all of
  them and in their order, and then ends: the first \<open>length xs\<close> pulls yield the items
  and every further pull finds the sequence ended. Two units of fuel are enough for
  each pull, whether or not the page size divides the number of items.
\<close>

theorem item_generator_yields_dataset:
  assumes "0 < (case sz of None \<Rightarrow> D | Some s \<Rightarrow> s)"
  shows "map_option fst
           (pull_items (length xs + m) (Suc (Suc fuel)) (dataset_fetch D xs) sz ([], Ready 0) w) =
         Some (map Yielded xs @ replicate m StopIteration)"
  using pull_items_dataset [OF assms refl, of xs "[]" 0 xs m fuel w]
  by (simp del: pull_items.simps)

theorem item_generator_yields_dataset_witness:
  "0 < (case Some 3 of None \<Rightarrow> 10 | Some s \<Rightarrow> (s::nat))
   \<and> map_option fst
         (pull_items (length [0, 1, 2, 3, 4, 5, 6 :: nat] + 2) (Suc (Suc 0))
            (dataset_fetch 10 [0, 1, 2, 3, 4, 5, 6 :: nat] :: (unit, nat, unit) fetch_fn)
            (Some 3) ([], Ready 0) ()) =
       Some (map Yielded [0, 1, 2, 3, 4, 5, 6] @ replicate 2 StopIteration)"
proof -
  have h: "0 < (case Some 3 of None \<Rightarrow> 10 | Some s \<Rightarrow> (s::nat))" by simp
  from h item_generator_yields_dataset [OF h, of "[0, 1, 2, 3, 4, 5, 6 :: nat]" 2 0 "()"]
  show ?thesis by blast
qed

end
